theory Spec2Isabelle
  imports Main "HOL-Library.AList"
begin

section \<open>The classes of middleware.py\<close>

text \<open>
  The four middleware classes of the module. A layer is a class, never an instance:
  \<open>process_request\<close> is called on the class.
\<close>

datatype layer =
    AuthMiddleWare
  | StackedAuthMiddleWare
  | ViewAuthMiddleWare
  | IdentityAuthMiddleWare

text \<open>The authorizer classes imported from \<open>authorizers\<close>.\<close>

datatype authorizer = Authenticator | SafeMethodOnlyAuthorizer | APIAuthorizer

text \<open>
  An entry of an \<open>AUTH_CLASSES\<close> list: the class as written in the class body, or the
  instance that \<open>_init\<close> has put in its place.
\<close>

datatype auth_entry = AuthClass authorizer | AuthInstance authorizer

text \<open>The method resolution order of each class (\<open>object\<close> left out).\<close>

fun mro :: "layer \<Rightarrow> layer list" where
  "mro AuthMiddleWare = [AuthMiddleWare]"
| "mro StackedAuthMiddleWare = [StackedAuthMiddleWare, AuthMiddleWare]"
| "mro ViewAuthMiddleWare = [ViewAuthMiddleWare, AuthMiddleWare]"
| "mro IdentityAuthMiddleWare =
     [IdentityAuthMiddleWare, StackedAuthMiddleWare, AuthMiddleWare]"

text \<open>The names each class body binds, in source order.\<close>

fun class_body :: "layer \<Rightarrow> string list" where
  "class_body AuthMiddleWare =
     [''_metaclass_'', ''ERROR_BUNDLE_KEYS'', ''AUTH_CLASSES'', ''process_request'',
      ''authorize'', ''process'', ''delegate'', ''_init'', ''_get_authorizers'',
      ''__getattr__'', ''__setattr__'']"
| "class_body StackedAuthMiddleWare =
     [''_metaclass_'', ''STACKED_MIDDLEWARES'', ''delegate'', ''_get_stacked_middlewares'']"
| "class_body ViewAuthMiddleWare = [''AUTH_CLASSES'', ''process'', ''delegate'']"
| "class_body IdentityAuthMiddleWare =
     [''AUTH_CLASSES'', ''STACKED_MIDDLEWARES'', ''process'', ''delegate'']"

text \<open>The methods a class body decorates with \<open>abc.abstractmethod\<close>.\<close>

fun abstract_methods :: "layer \<Rightarrow> string list" where
  "abstract_methods AuthMiddleWare = [''process'', ''delegate'']"
| "abstract_methods _ = []"

text \<open>Attribute lookup on a class: the first class of the MRO whose body binds the name.\<close>

definition resolve :: "layer \<Rightarrow> string \<Rightarrow> layer option" where
  "resolve cls name = List.find (\<lambda>c. name \<in> set (class_body c)) (mro cls)"

text \<open>
  The abstract methods that \<open>cls\<close> inherits without overriding them: what
  \<open>ABCMeta\<close> would store in \<open>__abstractmethods__\<close>.
\<close>

definition unresolved_abstract :: "layer \<Rightarrow> string list" where
  "unresolved_abstract cls =
     filter (\<lambda>n. case resolve cls n of
                    None \<Rightarrow> False
                  | Some c \<Rightarrow> n \<in> set (abstract_methods c))
       [''process'', ''delegate'']"

text \<open>
  A class is built by \<open>abc.ABCMeta\<close> when its body, or the body of a class it derives
  from, binds the name \<open>__metaclass__\<close>. The bodies of this module bind
  \<open>_metaclass_\<close>, an ordinary class attribute.
\<close>

definition uses_ABCMeta :: "layer \<Rightarrow> bool" where
  "uses_ABCMeta cls = (resolve cls ''__metaclass__'' \<noteq> None)"

text \<open>
  \<open>inspect.isabstract(cls)\<close>: the class carries the abstract flag, which only
  \<open>ABCMeta\<close> sets, and only when abstract methods remain unresolved.
\<close>

definition isabstract :: "layer \<Rightarrow> bool" where
  "isabstract cls = (uses_ABCMeta cls \<and> unresolved_abstract cls \<noteq> [])"

text \<open>
  The class whose body binds the \<open>AUTH_CLASSES\<close> list that a lookup from \<open>cls\<close>
  finds. \<open>StackedAuthMiddleWare\<close> binds none and shares the list object of
  \<open>AuthMiddleWare\<close>.
\<close>

fun AUTH_CLASSES_owner :: "layer \<Rightarrow> layer" where
  "AUTH_CLASSES_owner AuthMiddleWare = AuthMiddleWare"
| "AUTH_CLASSES_owner StackedAuthMiddleWare = AuthMiddleWare"
| "AUTH_CLASSES_owner ViewAuthMiddleWare = ViewAuthMiddleWare"
| "AUTH_CLASSES_owner IdentityAuthMiddleWare = IdentityAuthMiddleWare"

text \<open>
  \<open>STACKED_MIDDLEWARES\<close> as a lookup from the class finds it. The lists are never
  written. \<open>AuthMiddleWare\<close> and \<open>ViewAuthMiddleWare\<close> have no such attribute and no
  method of theirs reads it.
\<close>

fun STACKED_MIDDLEWARES :: "layer \<Rightarrow> layer list" where
  "STACKED_MIDDLEWARES IdentityAuthMiddleWare = [ViewAuthMiddleWare]"
| "STACKED_MIDDLEWARES _ = []"

section \<open>Values, requests, errors\<close>

text \<open>The Python values that requests and responses hold, as far as the module looks at them.\<close>

datatype pyval =
    PNone
  | PStr string
  | PList "pyval list"
  | PDict "(string \<times> pyval) list"

text \<open>
  The request: the execution trace under the key \<open>middleware_stack\<close> (absent until the
  first append), and every other key in \<open>params\<close>, in insertion order.
\<close>

record request =
  middleware_stack :: "layer list option"
  params :: "(string \<times> pyval) list"

type_synonym code = int
type_synonym detail = pyval

datatype bundle_val =
    BStack "layer list"
  | BLayer layer
  | BNone
  | BAuthorized "code \<times> detail"
  | BRequest request

type_synonym error_bundle = "(string \<times> bundle_val) list"

datatype error =
    AbstractMiddlewareError error_bundle
  | AuthError error_bundle
  | ImproperErrorBundleDump
  | KeyError
  | IndexError
  | TypeError
  | AttributeError
  | RecursionLimit

definition ERROR_BUNDLE_KEYS :: "string list" where
  "ERROR_BUNDLE_KEYS =
     [''middleware_stack'', ''layer'', ''authorizer_error'', ''request_dump'']"

text \<open>
  Modelled from the spec: \<open>CustomError.bundle\<close> of the module \<open>custom_errors\<close>, which is
  not among the source files. The spec: an ErrorBundle is an ordered mapping with
  exactly four named fields, and construction must fail with a dump-bundling error if
  the supplied field set does not exactly match these four keys in this order. The
  callers pass the keys first and one value for each key after them.
\<close>

definition CustomError_bundle :: "string list \<Rightarrow> bundle_val list \<Rightarrow> error + error_bundle" where
  "CustomError_bundle keys vals =
     (if keys = [''middleware_stack'', ''layer'', ''authorizer_error'', ''request_dump'']
         \<and> length vals = length keys
      then Inr (zip keys vals)
      else Inl ImproperErrorBundleDump)"

text \<open>
  Modelled from the spec: \<open>RequestOp.appendParam(request, "middleware_stack", cls)\<close> of
  the module \<open>utils\<close>, which is not among the source files. The spec: append the layer
  type to \<open>request.middleware_stack\<close>, creating the list if absent.
\<close>

definition appendParam :: "request \<Rightarrow> layer \<Rightarrow> request" where
  "appendParam request cls =
     request\<lparr>middleware_stack :=
       Some (case middleware_stack request of
               None \<Rightarrow> [cls]
             | Some stack \<Rightarrow> stack @ [cls])\<rparr>"

text \<open>\<open>request['middleware_stack']\<close>.\<close>

definition get_stack :: "request \<Rightarrow> error + layer list" where
  "get_stack request =
     (case middleware_stack request of None \<Rightarrow> Inl KeyError | Some stack \<Rightarrow> Inr stack)"

text \<open>\<open>request[key]\<close> for any other key.\<close>

definition getitem :: "request \<Rightarrow> string \<Rightarrow> error + pyval" where
  "getitem request key =
     (case map_of (params request) key of None \<Rightarrow> Inl KeyError | Some v \<Rightarrow> Inr v)"

text \<open>
  \<open>v[1]\<close>: the second element of a sequence, the second character of a string;
  \<open>None\<close> is not subscriptable and a dictionary with string keys has no key \<open>1\<close>.
\<close>

fun index1 :: "pyval \<Rightarrow> error + pyval" where
  "index1 PNone = Inl TypeError"
| "index1 (PStr s) = (if 1 < length s then Inr (PStr [s ! 1]) else Inl IndexError)"
| "index1 (PList xs) = (if 1 < length xs then Inr (xs ! 1) else Inl IndexError)"
| "index1 (PDict kvs) = Inl KeyError"

text \<open>\<open>response[key] = v\<close>: only a dictionary takes a string key.\<close>

fun setitem :: "pyval \<Rightarrow> string \<Rightarrow> pyval \<Rightarrow> error + pyval" where
  "setitem (PDict kvs) key v = Inr (PDict (AList.update key v kvs))"
| "setitem _ key v = Inl TypeError"

section \<open>The collaborators\<close>

text \<open>
  What the module imports and does not define: the safe codes and the token header of
  \<open>settings\<close>, the decision of each authorizer, the capability query of
  \<open>Authenticator\<close> and the router. Authorizers and the router are taken as functions of
  their arguments: they return and leave the request as it is.
\<close>

record env =
  SAFE_CODES :: "code list"
  TOKEN_HEADER :: string
  authorizer_authorize :: "authorizer \<Rightarrow> request \<Rightarrow> code \<times> detail"
  is_requesting_authentication :: "request \<Rightarrow> bool"
  route :: "request \<Rightarrow> pyval \<Rightarrow> pyval"

section \<open>The state of the process\<close>

text \<open>The \<open>_instance\<close> entry of a class's own namespace: no entry, \<open>None\<close>, or an
  instance (by its identity). Only \<open>cls._instance = cls()\<close> stores an instance, so the
  instance in the entry of a class is an instance of that class.\<close>

datatype slot = Absent | IsNone | Inst nat

text \<open>A history of the calls made, kept for stating order; no function reads it.\<close>

datatype event =
    Enter layer
  | Create layer nat
  | Init layer
  | Authorize authorizer
  | Process layer
  | Delegate layer
  | Route

text \<open>
  \<open>own_instance\<close>: the \<open>_instance\<close> entry of each class. \<open>auth_classes\<close>: the three
  \<open>AUTH_CLASSES\<close> list objects, by the class that binds them. \<open>heap\<close>: the middleware
  instances created so far, each with its class and its own attribute dictionary; the
  identity of an instance is its position.
\<close>

record pstate =
  own_instance :: "layer \<Rightarrow> slot"
  auth_classes :: "layer \<Rightarrow> auth_entry list"
  heap :: "(layer \<times> (string \<times> pyval) list) list"
  events :: "event list"

text \<open>\<open>AUTH_CLASSES\<close> as the class bodies write it.\<close>

fun AUTH_CLASSES :: "layer \<Rightarrow> authorizer list" where
  "AUTH_CLASSES ViewAuthMiddleWare = [SafeMethodOnlyAuthorizer, APIAuthorizer]"
| "AUTH_CLASSES IdentityAuthMiddleWare = [Authenticator]"
| "AUTH_CLASSES _ = []"

text \<open>The process before any call: no class has an \<open>_instance\<close> entry, the lists hold
  classes, no instance exists.\<close>

definition initial_state :: pstate where
  "initial_state =
     \<lparr>own_instance = (\<lambda>c. Absent),
      auth_classes = (\<lambda>c. map AuthClass (AUTH_CLASSES c)),
      heap = [],
      events = []\<rparr>"

definition record_event :: "event \<Rightarrow> pstate \<Rightarrow> pstate" where
  "record_event e st = st\<lparr>events := events st @ [e]\<rparr>"

text \<open>\<open>cls._instance\<close> read through the MRO: the class that has the entry.\<close>

definition instance_holder :: "pstate \<Rightarrow> layer \<Rightarrow> layer option" where
  "instance_holder st cls = List.find (\<lambda>c. own_instance st c \<noteq> Absent) (mro cls)"

section \<open>AuthMiddleWare\<close>

text \<open>
  \<open>_init\<close>: each entry of the list is replaced, in place, by the result of calling it.
  Calling an authorizer class gives an instance; an authorizer instance is not
  callable. The entries before a failing one stay replaced.
\<close>

fun init_entries :: "auth_entry list \<Rightarrow> auth_entry list \<times> error option" where
  "init_entries [] = ([], None)"
| "init_entries (AuthInstance a # rest) = (AuthInstance a # rest, Some TypeError)"
| "init_entries (AuthClass a # rest) =
     (case init_entries rest of (rest', r) \<Rightarrow> (AuthInstance a # rest', r))"

definition init_instance :: "layer \<Rightarrow> pstate \<Rightarrow> pstate \<times> (error + unit)" where
  "init_instance cls st =
     (let st1 = record_event (Init cls) st;
          (entries, r) = init_entries (auth_classes st1 (AUTH_CLASSES_owner cls));
          st2 = st1\<lparr>auth_classes := (auth_classes st1)(AUTH_CLASSES_owner cls := entries)\<rparr>
      in (st2, case r of None \<Rightarrow> Inr () | Some e \<Rightarrow> Inl e))"

text \<open>\<open>_get_authorizers\<close> on an instance of \<open>cls\<close>.\<close>

definition get_authorizers :: "pstate \<Rightarrow> layer \<Rightarrow> auth_entry list" where
  "get_authorizers st cls = auth_classes st (AUTH_CLASSES_owner cls)"

text \<open>
  The error of lines 69 and 70, raised on an instance of \<open>cls\<close>. The arguments of
  \<open>CustomError.bundle\<close> are evaluated before the call, \<open>request['middleware_stack']\<close>
  among them; an error of \<open>bundle\<close> itself replaces the AuthError.
\<close>

definition auth_error :: "layer \<Rightarrow> request \<Rightarrow> code \<times> detail \<Rightarrow> error" where
  "auth_error cls request authorized =
     (case get_stack request of
        Inl e \<Rightarrow> e
      | Inr stack \<Rightarrow>
          (case CustomError_bundle ERROR_BUNDLE_KEYS
                  [BStack stack, BLayer cls, BAuthorized authorized, BRequest request] of
             Inl e \<Rightarrow> e
           | Inr b \<Rightarrow> AuthError b))"

text \<open>
  The loop of \<open>authorize\<close> on an instance of \<open>cls\<close>. An entry that is still a class
  has no bound \<open>authorize\<close>: the call is a TypeError.
\<close>

fun authorize_loop ::
  "env \<Rightarrow> layer \<Rightarrow> request \<Rightarrow> auth_entry list \<Rightarrow> pstate \<Rightarrow> pstate \<times> (error + unit)"
where
  "authorize_loop env cls request [] st = (st, Inr ())"
| "authorize_loop env cls request (AuthClass a # rest) st = (st, Inl TypeError)"
| "authorize_loop env cls request (AuthInstance a # rest) st =
     (let authorized = authorizer_authorize env a request;
          st1 = record_event (Authorize a) st
      in if fst authorized \<notin> set (SAFE_CODES env)
         then (st1, Inl (auth_error cls request authorized))
         else authorize_loop env cls request rest st1)"

definition authorize :: "env \<Rightarrow> layer \<Rightarrow> pstate \<Rightarrow> request \<Rightarrow> pstate \<times> (error + unit)" where
  "authorize env cls st request = authorize_loop env cls request (get_authorizers st cls) st"

text \<open>The \<open>process\<close> hook: every class's body is a bare \<open>return\<close>.\<close>

definition process :: "layer \<Rightarrow> pstate \<Rightarrow> pstate" where
  "process cls st = record_event (Process cls) st"

text \<open>
  Lines 49 to 53 of \<open>process_request\<close>: the entry is created as \<open>None\<close> when no class of
  the MRO has one; when the entry read through the MRO is falsy, a new instance of
  \<open>cls\<close> is stored on \<open>cls\<close> and initialised. The result names the class of the
  instance that \<open>cls._instance\<close> then reads, and its identity.
\<close>

definition ensure_instance :: "layer \<Rightarrow> pstate \<Rightarrow> pstate \<times> (error + layer \<times> nat)" where
  "ensure_instance cls st =
     (let st1 = (if instance_holder st cls = None
                 then st\<lparr>own_instance := (own_instance st)(cls := IsNone)\<rparr>
                 else st)
      in case instance_holder st1 cls of
           None \<Rightarrow> (st1, Inl AttributeError)
         | Some c \<Rightarrow>
            (case own_instance st1 c of
               Inst i \<Rightarrow> (st1, Inr (c, i))
             | _ \<Rightarrow>
               (let i = length (heap st1);
                    st2 = record_event (Create cls i)
                            (st1\<lparr>own_instance := (own_instance st1)(cls := Inst i),
                                 heap := heap st1 @ [(cls, [])]\<rparr>)
                in case init_instance cls st2 of
                     (st3, Inl e) \<Rightarrow> (st3, Inl e)
                   | (st3, Inr u) \<Rightarrow> (st3, Inr (cls, i)))))"

text \<open>
  The error of lines 47 and 48. \<open>request.middleware_stack\<close> is taken as a read of
  the trace that line 44 has just appended to (on a plain dictionary the attribute
  read itself would fail).
\<close>

definition abstract_error :: "layer \<Rightarrow> request \<Rightarrow> error" where
  "abstract_error cls request =
     (case middleware_stack request of
        None \<Rightarrow> AttributeError
      | Some stack \<Rightarrow>
          (case CustomError_bundle ERROR_BUNDLE_KEYS
                  [BStack stack, BLayer cls, BNone, BRequest request] of
             Inl e \<Rightarrow> e
           | Inr b \<Rightarrow> AbstractMiddlewareError b))"

text \<open>Line 159: the right-hand side is evaluated before the assignment.\<close>

definition copy_token :: "env \<Rightarrow> request \<Rightarrow> pyval \<Rightarrow> error + pyval" where
  "copy_token env request response =
     (case getitem request (TOKEN_HEADER env) of
        Inl e \<Rightarrow> Inl e
      | Inr v \<Rightarrow>
          (case index1 v of
             Inl e \<Rightarrow> Inl e
           | Inr token \<Rightarrow> setitem response (TOKEN_HEADER env) token))"

text \<open>How deep the stacked lists below a class nest; the measure of the recursion.\<close>

fun depth :: "layer \<Rightarrow> nat" where
  "depth IdentityAuthMiddleWare = 1"
| "depth _ = 0"

lemma instance_holder_mro:
  "instance_holder st cls = Some c \<Longrightarrow> c \<in> set (mro cls)"
  by (auto simp: instance_holder_def find_Some_iff)

lemma self_in_mro: "cls \<in> set (mro cls)"
  by (cases cls) auto

lemma ensure_instance_mro:
  "ensure_instance cls st = (st', Inr (c, i)) \<Longrightarrow> c \<in> set (mro cls)"
  by (auto simp: ensure_instance_def Let_def self_in_mro dest: instance_holder_mro
           split: option.splits slot.splits prod.splits sum.splits if_splits)

lemma mro_depth: "c \<in> set (mro cls) \<Longrightarrow> depth c \<le> depth cls"
  by (cases cls) auto

text \<open>
  \<open>process_request\<close>, the \<open>delegate\<close> of each class, and the loop of
  \<open>StackedAuthMiddleWare.delegate\<close> over a list of layer types. \<open>delegate\<close> is
  dispatched on the class of the instance.
\<close>

function
  process_request ::
    "env \<Rightarrow> layer \<Rightarrow> pstate \<Rightarrow> request \<Rightarrow> pyval \<Rightarrow> pstate \<times> request \<times> (error + pyval)"
and
  delegate ::
    "env \<Rightarrow> layer \<Rightarrow> pstate \<Rightarrow> request \<Rightarrow> pyval \<Rightarrow> pstate \<times> request \<times> (error + pyval)"
and
  stacked_delegate ::
    "env \<Rightarrow> layer list \<Rightarrow> pstate \<Rightarrow> request \<Rightarrow> pyval \<Rightarrow> pstate \<times> request \<times> (error + pyval)"
where
  "process_request env cls st request response =
     (let request1 = appendParam request cls;
          st0 = record_event (Enter cls) st
      in if isabstract cls then (st0, request1, Inl (abstract_error cls request1))
         else
           (case ensure_instance cls st0 of
              (st1, Inl e) \<Rightarrow> (st1, request1, Inl e)
            | (st1, Inr self) \<Rightarrow>
                (case authorize env (fst self) st1 request1 of
                   (st2, Inl e) \<Rightarrow> (st2, request1, Inl e)
                 | (st2, Inr u) \<Rightarrow>
                     delegate env (fst self) (process (fst self) st2) request1 response)))"
| "delegate env AuthMiddleWare st request response =
     (record_event (Delegate AuthMiddleWare) st, request, Inr PNone)"
| "delegate env StackedAuthMiddleWare st request response =
     stacked_delegate env (STACKED_MIDDLEWARES StackedAuthMiddleWare)
       (record_event (Delegate StackedAuthMiddleWare) st) request response"
| "delegate env ViewAuthMiddleWare st request response =
     (record_event Route (record_event (Delegate ViewAuthMiddleWare) st),
      request, Inr (route env request response))"
| "delegate env IdentityAuthMiddleWare st request response =
     (let st1 = record_event (Delegate IdentityAuthMiddleWare) st
      in if is_requesting_authentication env request
         then (st1, request, copy_token env request response)
         else stacked_delegate env (STACKED_MIDDLEWARES IdentityAuthMiddleWare)
                st1 request response)"
| "stacked_delegate env [] st request response = (st, request, Inr response)"
| "stacked_delegate env (s_mw # rest) st request response =
     (case process_request env s_mw st request response of
        (st1, request1, Inl e) \<Rightarrow> (st1, request1, Inl e)
      | (st1, request1, Inr response1) \<Rightarrow>
          stacked_delegate env rest st1 request1 response1)"
  by pat_completeness auto
termination
proof (relation "measure (\<lambda>x. case x of
          Inl (env, cls, rest) \<Rightarrow> 3 * depth cls + 3
        | Inr (Inl (env, cls, rest)) \<Rightarrow> 3 * depth cls + 2
        | Inr (Inr (env, mws, rest)) \<Rightarrow> (\<Sum>m\<leftarrow>mws. 3 * depth m + 3) + 1)",
       goal_cases)
  case (2 env cls st request response request1 st0 st1 r self st2 r2 u)
  from 2(4,5) have "fst self \<in> set (mro cls)"
    by (cases self) (auto dest: ensure_instance_mro [OF sym])
  then show ?case
    using mro_depth [of "fst self" cls] by simp
qed simp_all

declare process_request.simps [simp del]


section \<open>The attribute hooks of AuthMiddleWare\<close>








section \<open>Notions used to state the properties\<close>

text \<open>An authorizer's code for this request is one of the safe codes.\<close>

definition returns_safe :: "env \<Rightarrow> request \<Rightarrow> authorizer \<Rightarrow> bool" where
  "returns_safe env request a =
     (fst (authorizer_authorize env a request) \<in> set (SAFE_CODES env))"

text \<open>The execution trace of a request, empty while the key is absent.\<close>

definition the_trace :: "request \<Rightarrow> layer list" where
  "the_trace request = (case middleware_stack request of None \<Rightarrow> [] | Some stack \<Rightarrow> stack)"

text \<open>The layer types on which the entry point was invoked, read off a history.\<close>

fun entered :: "event list \<Rightarrow> layer list" where
  "entered [] = []"
| "entered (Enter cls # es) = cls # entered es"
| "entered (e # es) = entered es"

subsection \<open>What a call may change\<close>

text \<open>
  \<open>quiet st st'\<close>: from \<open>st\<close> to \<open>st'\<close> the history has grown by events none of
  which is an entry, and the heap by instances with empty attribute dictionaries.
  \<open>grows st request out\<close>: the outcome \<open>out\<close> of a call started in \<open>st\<close> on
  \<open>request\<close> has, besides, extended the trace by the layer types entered, in order,
  and left every other key of the request as it was.
\<close>

definition quiet :: "pstate \<Rightarrow> pstate \<Rightarrow> bool" where
  "quiet st st' =
     (\<exists>new created.
        events st' = events st @ new \<and> entered new = []
      \<and> heap st' = heap st @ created \<and> list_all (\<lambda>p. snd p = []) created)"

definition grows :: "pstate \<Rightarrow> request \<Rightarrow> pstate \<times> request \<times> (error + pyval) \<Rightarrow> bool" where
  "grows st request out =
     (\<exists>new created.
        events (fst out) = events st @ new
      \<and> the_trace (fst (snd out)) = the_trace request @ entered new
      \<and> params (fst (snd out)) = params request
      \<and> (middleware_stack request \<noteq> None \<longrightarrow> middleware_stack (fst (snd out)) \<noteq> None)
      \<and> heap (fst out) = heap st @ created \<and> list_all (\<lambda>p. snd p = []) created)"

subsection \<open>Instances over the life of the process\<close>

text \<open>A layer type is concrete when no abstract method is left unresolved.\<close>

definition concrete :: "layer \<Rightarrow> bool" where
  "concrete cls = (unresolved_abstract cls = [])"

text \<open>How many instances of a class exist, and how often \<open>_init\<close> ran on one.\<close>

definition instances_of :: "layer \<Rightarrow> pstate \<Rightarrow> nat" where
  "instances_of cls st = length (filter (\<lambda>p. fst p = cls) (heap st))"

definition inits_of :: "layer \<Rightarrow> pstate \<Rightarrow> nat" where
  "inits_of cls st = length (filter (\<lambda>e. e = Init cls) (events st))"

text \<open>
  The instance that \<open>cls._instance\<close> reads, if it reads one: the class that holds
  it and its identity.
\<close>

definition serving :: "pstate \<Rightarrow> layer \<Rightarrow> (layer \<times> nat) option" where
  "serving st cls =
     (case instance_holder st cls of
        None \<Rightarrow> None
      | Some c \<Rightarrow> (case own_instance st c of Inst i \<Rightarrow> Some (c, i) | _ \<Rightarrow> None))"

text \<open>
  \<open>history env st st'\<close>: the process gets from \<open>st\<close> to \<open>st'\<close> by calls of the
  entry point, on any layer types, with any requests and responses.
  \<open>concrete_history\<close>: the same by calls on concrete layer types only.
\<close>

inductive history :: "env \<Rightarrow> pstate \<Rightarrow> pstate \<Rightarrow> bool" for env :: env and st :: pstate where
  here: "history env st st"
| call: "history env st st1 \<Longrightarrow>
         history env st (fst (process_request env cls st1 request response))"

inductive concrete_history :: "env \<Rightarrow> pstate \<Rightarrow> pstate \<Rightarrow> bool"
  for env :: env and st :: pstate where
  here: "concrete_history env st st"
| call: "concrete_history env st st1 \<Longrightarrow> concrete cls \<Longrightarrow>
         concrete_history env st (fst (process_request env cls st1 request response))"

text \<open>
  What holds of every class between calls. \<open>counted\<close>: the class has no entry and
  no instance, or its entry is its one instance, initialised once. \<open>listed\<close>: its
  authorizer list holds the classes of the class body while the class has no entry, and
  an instance of each afterwards.
\<close>

definition counted :: "layer \<Rightarrow> pstate \<Rightarrow> bool" where
  "counted cls st =
     (case own_instance st cls of
        Absent \<Rightarrow> instances_of cls st = 0 \<and> inits_of cls st = 0
      | IsNone \<Rightarrow> False
      | Inst i \<Rightarrow> i < length (heap st) \<and> fst (heap st ! i) = cls
                  \<and> instances_of cls st = 1 \<and> inits_of cls st = 1)"

definition listed :: "layer \<Rightarrow> pstate \<Rightarrow> bool" where
  "listed cls st =
     (auth_classes st cls =
        (if own_instance st cls = Absent then map AuthClass (AUTH_CLASSES cls)
         else map AuthInstance (AUTH_CLASSES cls)))"

definition tidy :: "pstate \<Rightarrow> bool" where
  "tidy st =
     ((\<forall>c. counted c st)
      \<and> listed ViewAuthMiddleWare st \<and> listed IdentityAuthMiddleWare st
      \<and> auth_classes st AuthMiddleWare = [])"

text \<open>No abstract class holds an instance.\<close>

definition clean :: "pstate \<Rightarrow> bool" where
  "clean st =
     (own_instance st AuthMiddleWare = Absent \<and> own_instance st StackedAuthMiddleWare = Absent)"

text \<open>Every class that is served by an instance in \<open>st\<close> is served by the same one
  in \<open>st'\<close>.\<close>

definition stable :: "pstate \<Rightarrow> pstate \<Rightarrow> bool" where
  "stable st st' = (\<forall>cls x. serving st cls = Some x \<longrightarrow> serving st' cls = Some x)"

text \<open>The state once lines 52 and 53 have created and initialised an instance of
  \<open>cls\<close> whose list held classes.\<close>

definition with_new_instance :: "layer \<Rightarrow> pstate \<Rightarrow> pstate" where
  "with_new_instance cls st =
     st\<lparr>own_instance := (own_instance st)(cls := Inst (length (heap st))),
        auth_classes := (auth_classes st)
           (AUTH_CLASSES_owner cls := map AuthInstance (AUTH_CLASSES cls)),
        heap := heap st @ [(cls, [])],
        events := events st @ [Create cls (length (heap st)), Init cls]\<rparr>"

section \<open>A sample configuration and sample requests\<close>

text \<open>
  Collaborators for concrete runs: only code 200 is safe; the method check passes GET
  and answers 405 otherwise; a request asks for authentication when it has the key
  \<open>login\<close>; the router answers with a fixed value.
\<close>

definition sample_env :: env where
  "sample_env =
     \<lparr>SAFE_CODES = [200],
      TOKEN_HEADER = ''Authorization'',
      authorizer_authorize = (\<lambda>a request. case a of
          SafeMethodOnlyAuthorizer \<Rightarrow>
            (if map_of (params request) ''method'' = Some (PStr ''GET'')
             then (200, PNone) else (405, PStr ''method''))
        | _ \<Rightarrow> (200, PNone)),
      is_requesting_authentication = (\<lambda>request. map_of (params request) ''login'' \<noteq> None),
      route = (\<lambda>request response. PStr ''routed'')\<rparr>"

text \<open>The state after the view layer's instance has been created and initialised.\<close>

definition view_ready :: pstate where
  "view_ready = fst (ensure_instance ViewAuthMiddleWare initial_state)"

definition post_request :: request where
  "post_request = \<lparr>middleware_stack = Some [ViewAuthMiddleWare],
                    params = [(''method'', PStr ''POST'')]\<rparr>"

definition get_request :: request where
  "get_request = \<lparr>middleware_stack = Some [ViewAuthMiddleWare],
                   params = [(''method'', PStr ''GET'')]\<rparr>"

text \<open>A request that no layer has seen yet, and an empty response dictionary.\<close>

definition fresh_get :: request where
  "fresh_get = \<lparr>middleware_stack = None, params = [(''method'', PStr ''GET'')]\<rparr>"

definition empty_response :: pyval where
  "empty_response = PDict []"

text \<open>Requests that ask for authentication: without a token, with one, and with a
  header too short to hold one.\<close>

definition login_no_token :: request where
  "login_no_token = \<lparr>middleware_stack = None, params = [(''login'', PStr ''yes'')]\<rparr>"

definition login_with_token :: request where
  "login_with_token =
     \<lparr>middleware_stack = None,
      params = [(''login'', PStr ''yes''),
                (''Authorization'', PList [PStr ''Bearer'', PStr ''t0k3n''])]\<rparr>"

definition login_short_header :: request where
  "login_short_header =
     \<lparr>middleware_stack = None,
      params = [(''login'', PStr ''yes''), (''Authorization'', PList [PStr ''Bearer''])]\<rparr>"







section \<open>Error bundles\<close>

lemma bundle_four:
  "CustomError_bundle ERROR_BUNDLE_KEYS [a, b, c, d] =
     Inr [(''middleware_stack'', a), (''layer'', b), (''authorizer_error'', c),
          (''request_dump'', d)]"
  by (simp add: CustomError_bundle_def ERROR_BUNDLE_KEYS_def)

text \<open>
  C5. A bundle built from any keys other than \<open>middleware_stack\<close>, \<open>layer\<close>,
  \<open>authorizer_error\<close>, \<open>request_dump\<close> in this order, or from a number of values
  other than four, fails with ImproperErrorBundleDump; a bundle built from these four
  keys and four values succeeds and pairs each key with its value, in order.
\<close>

theorem bundle_exact_keys:
  "(keys \<noteq> [''middleware_stack'', ''layer'', ''authorizer_error'', ''request_dump'']
      \<or> length vals \<noteq> 4
     \<longrightarrow> CustomError_bundle keys vals = Inl ImproperErrorBundleDump)
   \<and> (keys = [''middleware_stack'', ''layer'', ''authorizer_error'', ''request_dump'']
      \<and> length vals = 4
     \<longrightarrow> (\<exists>b. CustomError_bundle keys vals = Inr b
            \<and> map fst b = keys \<and> map snd b = vals))"
  by (auto simp: CustomError_bundle_def)

theorem bundle_exact_keys_witness:
  "CustomError_bundle [''layer'', ''middleware_stack'', ''authorizer_error'', ''request_dump'']
       [BLayer ViewAuthMiddleWare, BStack [], BNone, BNone]
     = Inl ImproperErrorBundleDump
   \<and> (\<exists>b. CustomError_bundle
             [''middleware_stack'', ''layer'', ''authorizer_error'', ''request_dump'']
             [BStack [ViewAuthMiddleWare], BLayer ViewAuthMiddleWare, BNone, BNone] = Inr b
          \<and> map fst b = [''middleware_stack'', ''layer'', ''authorizer_error'', ''request_dump'']
          \<and> map snd b = [BStack [ViewAuthMiddleWare], BLayer ViewAuthMiddleWare, BNone, BNone])"
  using bundle_exact_keys
          [of "[''layer'', ''middleware_stack'', ''authorizer_error'', ''request_dump'']"
              "[BLayer ViewAuthMiddleWare, BStack [], BNone, BNone]"]
        bundle_exact_keys
          [of "[''middleware_stack'', ''layer'', ''authorizer_error'', ''request_dump'']"
              "[BStack [ViewAuthMiddleWare], BLayer ViewAuthMiddleWare, BNone, BNone]"]
  by simp

section \<open>Authorization\<close>

lemma authorize_loop_char:
  "authorize_loop env cls request (map AuthInstance as) st =
     (st\<lparr>events := events st @ map Authorize
          (takeWhile (returns_safe env request) as
           @ take 1 (dropWhile (returns_safe env request) as))\<rparr>,
      case dropWhile (returns_safe env request) as of
        [] \<Rightarrow> Inr ()
      | a # later \<Rightarrow> Inl (auth_error cls request (authorizer_authorize env a request)))"
proof (induction as arbitrary: st)
  case Nil
  show ?case by simp
next
  case (Cons a as)
  show ?case
  proof (cases "returns_safe env request a")
    case True
    then show ?thesis
      using Cons.IH [of "record_event (Authorize a) st"]
      by (simp add: returns_safe_def record_event_def Let_def)
  next
    case False
    then show ?thesis
      by (simp add: returns_safe_def record_event_def Let_def)
  qed
qed

lemma auth_error_with_stack:
  "middleware_stack request = Some stack \<Longrightarrow>
   auth_error cls request authorized =
     AuthError [(''middleware_stack'', BStack stack), (''layer'', BLayer cls),
                (''authorizer_error'', BAuthorized authorized),
                (''request_dump'', BRequest request)]"
  by (simp add: auth_error_def get_stack_def bundle_four)

lemma view_ready_authorizers:
  "get_authorizers view_ready ViewAuthMiddleWare =
     map AuthInstance [SafeMethodOnlyAuthorizer, APIAuthorizer]"
  by (simp add: view_ready_def get_authorizers_def ensure_instance_def instance_holder_def
        init_instance_def record_event_def initial_state_def Let_def)

text \<open>
  C3. \<open>authorize\<close> on an instance whose authorizer list holds the instances \<open>as\<close> (as
  \<open>_init\<close> leaves it) and a request that carries a trace (as line 44 leaves it; both
  hold where \<open>process_request\<close> calls \<open>authorize\<close>, see
  \<open>authorize_called_prepared\<close> below): the authorizers called are, in list order,
  those that return a safe code up to the first that does not, and that one; nothing
  else of the state changes. If every authorizer returns a safe code nothing is
  raised; otherwise an AuthError is.
\<close>

theorem authorize_fail_fast:
  assumes "get_authorizers st cls = map AuthInstance as"
      and "middleware_stack request = Some stack"
  shows "fst (authorize env cls st request) =
           st\<lparr>events := events st @ map Authorize
              (takeWhile (returns_safe env request) as
               @ take 1 (dropWhile (returns_safe env request) as))\<rparr>
       \<and> (list_all (returns_safe env request) as
            \<longrightarrow> snd (authorize env cls st request) = Inr ())
       \<and> (\<not> list_all (returns_safe env request) as
            \<longrightarrow> (\<exists>b. snd (authorize env cls st request) = Inl (AuthError b)))"
proof -
  let ?safe = "returns_safe env request"
  have out: "authorize env cls st request =
     (st\<lparr>events := events st @ map Authorize (takeWhile ?safe as @ take 1 (dropWhile ?safe as))\<rparr>,
      case dropWhile ?safe as of
        [] \<Rightarrow> Inr ()
      | a # later \<Rightarrow> Inl (auth_error cls request (authorizer_authorize env a request)))"
    using assms(1) by (simp add: authorize_def authorize_loop_char)
  have all: "list_all ?safe as \<Longrightarrow> dropWhile ?safe as = []"
    by (simp add: list_all_iff)
  have some: "\<not> list_all ?safe as \<Longrightarrow> \<exists>a later. dropWhile ?safe as = a # later"
    by (cases "dropWhile ?safe as") (auto simp: list_all_iff)
  have c1: "fst (authorize env cls st request) =
           st\<lparr>events := events st @ map Authorize
              (takeWhile ?safe as @ take 1 (dropWhile ?safe as))\<rparr>"
    by (simp add: out)
  have c2: "snd (authorize env cls st request) = Inr ()" if "list_all ?safe as"
    by (simp only: out all [OF that] snd_conv list.case)
  have c3: "\<exists>b. snd (authorize env cls st request) = Inl (AuthError b)"
    if "\<not> list_all ?safe as"
  proof -
    from some [OF that] obtain a later where "dropWhile ?safe as = a # later"
      by blast
    then show ?thesis
      by (simp add: out auth_error_with_stack [OF assms(2)])
  qed
  from c1 c2 c3 show ?thesis by blast
qed

theorem authorize_fail_fast_witness:
  "fst (authorize sample_env ViewAuthMiddleWare view_ready post_request) =
     view_ready\<lparr>events := events view_ready @ [Authorize SafeMethodOnlyAuthorizer]\<rparr>
   \<and> (\<exists>b. snd (authorize sample_env ViewAuthMiddleWare view_ready post_request)
            = Inl (AuthError b))
   \<and> fst (authorize sample_env ViewAuthMiddleWare view_ready get_request) =
     view_ready\<lparr>events := events view_ready
        @ [Authorize SafeMethodOnlyAuthorizer, Authorize APIAuthorizer]\<rparr>
   \<and> snd (authorize sample_env ViewAuthMiddleWare view_ready get_request) = Inr ()"
  using authorize_fail_fast [OF view_ready_authorizers, of post_request "[ViewAuthMiddleWare]"
          sample_env]
        authorize_fail_fast [OF view_ready_authorizers, of get_request "[ViewAuthMiddleWare]"
          sample_env]
  by (simp add: post_request_def get_request_def returns_safe_def sample_env_def)

text \<open>
  C4. When the authorizers before \<open>a\<close> in the list return safe codes and \<open>a\<close> does not,
  the AuthError raised by \<open>authorize\<close> on an instance of \<open>cls\<close> carries the bundle
  whose \<open>middleware_stack\<close> is the trace the request holds at that moment, whose
  \<open>layer\<close> is \<open>cls\<close>, whose \<open>authorizer_error\<close> is the pair that \<open>a\<close> returned and
  whose \<open>request_dump\<close> is the request.
\<close>

theorem auth_error_bundle:
  assumes "get_authorizers st cls = map AuthInstance (before @ a # after)"
      and "middleware_stack request = Some stack"
      and "list_all (returns_safe env request) before"
      and "\<not> returns_safe env request a"
  shows "snd (authorize env cls st request) =
     Inl (AuthError
       [(''middleware_stack'', BStack stack),
        (''layer'', BLayer cls),
        (''authorizer_error'', BAuthorized (authorizer_authorize env a request)),
        (''request_dump'', BRequest request)])"
proof -
  have "dropWhile (returns_safe env request) (before @ a # after) = a # after"
    using assms(3,4) by (simp add: list_all_iff dropWhile_append3)
  moreover have "authorize env cls st request =
      authorize_loop env cls request (map AuthInstance (before @ a # after)) st"
    by (simp only: authorize_def assms(1))
  ultimately show ?thesis
    by (simp only: authorize_loop_char list.case snd_conv auth_error_with_stack [OF assms(2)])
qed

theorem auth_error_bundle_witness:
  "snd (authorize sample_env ViewAuthMiddleWare view_ready post_request) =
     Inl (AuthError
       [(''middleware_stack'', BStack [ViewAuthMiddleWare]),
        (''layer'', BLayer ViewAuthMiddleWare),
        (''authorizer_error'', BAuthorized (405, PStr ''method'')),
        (''request_dump'', BRequest post_request)])"
  using auth_error_bundle [of view_ready ViewAuthMiddleWare "[]" SafeMethodOnlyAuthorizer
          "[APIAuthorizer]" post_request "[ViewAuthMiddleWare]" sample_env]
        view_ready_authorizers
  by (simp add: post_request_def returns_safe_def sample_env_def)

section \<open>Frame of the pipeline\<close>

lemma entered_append: "entered (xs @ ys) = entered xs @ entered ys"
  by (induction xs rule: entered.induct) simp_all

lemma quiet_refl: "quiet st st"
  by (simp add: quiet_def)

lemma quiet_trans: "quiet st st1 \<Longrightarrow> quiet st1 st2 \<Longrightarrow> quiet st st2"
  unfolding quiet_def
  by (elim exE conjE, rule_tac x = "new @ newa" in exI, rule_tac x = "created @ createda" in exI)
     (simp add: entered_append)

lemma quiet_event: "entered [e] = [] \<Longrightarrow> quiet st (record_event e st)"
  unfolding quiet_def record_event_def
  by (rule_tac x = "[e]" in exI, rule_tac x = "[]" in exI) simp

lemma grows_same: "quiet st st' \<Longrightarrow> grows st request (st', request, r)"
  unfolding quiet_def grows_def by auto

lemma quiet_grows: "quiet st st1 \<Longrightarrow> grows st1 request out \<Longrightarrow> grows st request out"
  unfolding quiet_def grows_def
  by (elim exE conjE, rule_tac x = "new @ newa" in exI, rule_tac x = "created @ createda" in exI)
     (simp add: entered_append)

lemma grows_trans:
  "grows st request (st1, request1, r) \<Longrightarrow> grows st1 request1 out \<Longrightarrow> grows st request out"
  unfolding grows_def
  by (elim exE conjE, rule_tac x = "new @ newa" in exI, rule_tac x = "created @ createda" in exI)
     (simp add: entered_append)

lemma init_instance_quiet: "init_instance cls st = (st', r) \<Longrightarrow> quiet st st'"
  unfolding quiet_def init_instance_def record_event_def Let_def
  by (rule_tac x = "[Init cls]" in exI, rule_tac x = "[]" in exI) (auto split: prod.splits)

lemma ensure_instance_quiet: "ensure_instance cls st = (st', r) \<Longrightarrow> quiet st st'"
proof -
  assume run: "ensure_instance cls st = (st', r)"
  define st1 where "st1 = (if instance_holder st cls = None
                 then st\<lparr>own_instance := (own_instance st)(cls := IsNone)\<rparr> else st)"
  have q1: "quiet st st1"
    by (simp add: st1_def quiet_def)
  define st2 where "st2 = record_event (Create cls (length (heap st1)))
                            (st1\<lparr>own_instance := (own_instance st1)(cls := Inst (length (heap st1))),
                                 heap := heap st1 @ [(cls, [])]\<rparr>)"
  have q2: "quiet st1 st2"
    unfolding quiet_def st2_def record_event_def
    by (rule_tac x = "[Create cls (length (heap st1))]" in exI, rule_tac x = "[(cls, [])]" in exI)
       simp
  have "st' = st1 \<or> (\<exists>r'. init_instance cls st2 = (st', r'))"
    using run unfolding ensure_instance_def st1_def [symmetric] Let_def st2_def [symmetric]
    by (auto split: option.splits slot.splits prod.splits sum.splits)
  then show ?thesis
    using q1 q2 by (auto intro: quiet_trans dest: init_instance_quiet)
qed

lemma authorize_loop_quiet: "authorize_loop env cls request es st = (st', r) \<Longrightarrow> quiet st st'"
proof (induction env cls request es st rule: authorize_loop.induct)
  case (1 env cls request st)
  then show ?case by (simp add: quiet_refl)
next
  case (2 env cls request a rest st)
  then show ?case by (simp add: quiet_refl)
next
  case (3 env cls request a rest st)
  have q: "quiet st (record_event (Authorize a) st)"
    by (rule quiet_event) simp
  show ?case
  proof (cases "fst (authorizer_authorize env a request) \<in> set (SAFE_CODES env)")
    case True
    with 3 have "quiet (record_event (Authorize a) st) st'"
      by (simp add: Let_def)
    with q show ?thesis by (rule quiet_trans)
  next
    case False
    with 3 q show ?thesis by (auto simp: Let_def)
  qed
qed

lemma authorize_quiet: "authorize env cls st request = (st', r) \<Longrightarrow> quiet st st'"
  unfolding authorize_def by (rule authorize_loop_quiet)

lemma process_quiet: "quiet st (process cls st)"
  unfolding process_def by (rule quiet_event) simp

lemma enter_grows:
  "grows st request (record_event (Enter cls) st, appendParam request cls, r)"
  unfolding grows_def record_event_def appendParam_def the_trace_def
  by (rule_tac x = "[Enter cls]" in exI, rule_tac x = "[]" in exI) (simp split: option.splits)

lemma pipeline_grows:
  "grows st request (process_request env cls st request response)"
  "grows st request (delegate env cls st request response)"
  "grows st request (stacked_delegate env mws st request response)"
proof (induction env cls st request response and env cls st request response
         and env mws st request response rule: process_request_delegate_stacked_delegate.induct)
  case (1 env cls st request response)
  let ?request1 = "appendParam request cls"
  let ?st0 = "record_event (Enter cls) st"
  have enter: "\<And>r. grows st request (?st0, ?request1, r)"
    by (rule enter_grows)
  show ?case
  proof (cases "isabstract cls")
    case True
    then show ?thesis
      by (simp add: process_request.simps Let_def enter)
  next
    case False
    obtain st1 r1 where e: "ensure_instance cls ?st0 = (st1, r1)"
      by (cases "ensure_instance cls ?st0")
    have q1: "quiet ?st0 st1"
      using e by (rule ensure_instance_quiet)
    have g1: "\<And>r. grows st request (st1, ?request1, r)"
      using enter grows_same [OF q1] by (rule grows_trans)
    show ?thesis
    proof (cases r1)
      case (Inl err)
      then show ?thesis
        using False e by (simp add: process_request.simps Let_def g1)
    next
      case (Inr self)
      obtain st2 r2 where a: "authorize env (fst self) st1 ?request1 = (st2, r2)"
        by (cases "authorize env (fst self) st1 ?request1")
      have q2: "quiet st1 st2"
        using a by (rule authorize_quiet)
      have g2: "\<And>r. grows st request (st2, ?request1, r)"
        using g1 grows_same [OF q2] by (rule grows_trans)
      show ?thesis
      proof (cases r2)
        case (Inl err)
        then show ?thesis
          using False e Inr a by (simp add: process_request.simps Let_def g2)
      next
        case u: (Inr u)
        have "grows (process (fst self) st2) ?request1
                (delegate env (fst self) (process (fst self) st2) ?request1 response)"
          using "1.IH" [OF refl refl False e [symmetric] Inr a [symmetric] u] .
        then have "grows st2 ?request1
                (delegate env (fst self) (process (fst self) st2) ?request1 response)"
          using process_quiet by (rule quiet_grows [rotated])
        with g2 have "grows st request
                (delegate env (fst self) (process (fst self) st2) ?request1 response)"
          by (rule grows_trans)
        then show ?thesis
          using False e Inr a u by (simp add: process_request.simps Let_def)
      qed
    qed
  qed
next
  case (2 env st request response)
  show ?case
    by (simp add: grows_same quiet_event)
next
  case (3 env st request response)
  have "quiet st (record_event (Delegate StackedAuthMiddleWare) st)"
    by (rule quiet_event) simp
  then show ?case
    using 3 by (simp add: quiet_grows)
next
  case (4 env st request response)
  have "quiet st (record_event Route (record_event (Delegate ViewAuthMiddleWare) st))"
    by (rule quiet_trans [OF quiet_event quiet_event]) simp_all
  then show ?case
    by (simp add: grows_same)
next
  case (5 env st request response)
  have q: "quiet st (record_event (Delegate IdentityAuthMiddleWare) st)"
    by (rule quiet_event) simp
  show ?case
  proof (cases "is_requesting_authentication env request")
    case True
    then show ?thesis
      using q by (simp add: Let_def grows_same)
  next
    case False
    then show ?thesis
      using q 5 by (simp add: Let_def quiet_grows)
  qed
next
  case (6 env st request response)
  show ?case
    by (simp add: grows_same quiet_refl)
next
  case (7 env s_mw rest st request response)
  obtain st1 request1 r1 where p: "process_request env s_mw st request response = (st1, request1, r1)"
    by (cases "process_request env s_mw st request response")
  have g1: "\<And>r. grows st request (st1, request1, r)"
    using "7.IH"(1) p by (simp add: grows_def)
  show ?case
  proof (cases r1)
    case (Inl err)
    then show ?thesis
      using p g1 by simp
  next
    case (Inr response1)
    have "grows st1 request1 (stacked_delegate env rest st1 request1 response1)"
      using "7.IH"(2) [OF p [symmetric] refl Inr] .
    with g1 have "grows st request (stacked_delegate env rest st1 request1 response1)"
      by (rule grows_trans)
    then show ?thesis
      using p Inr by simp
  qed
qed

lemma process_request_after_enter:
  "grows (record_event (Enter cls) st) (appendParam request cls)
     (process_request env cls st request response)"
proof -
  let ?request1 = "appendParam request cls"
  let ?st0 = "record_event (Enter cls) st"
  show ?thesis
  proof (cases "isabstract cls")
    case True
    then show ?thesis
      by (simp add: process_request.simps Let_def grows_same quiet_refl)
  next
    case False
    obtain st1 r1 where e: "ensure_instance cls ?st0 = (st1, r1)"
      by (cases "ensure_instance cls ?st0")
    have q1: "quiet ?st0 st1"
      using e by (rule ensure_instance_quiet)
    show ?thesis
    proof (cases r1)
      case (Inl err)
      then show ?thesis
        using False e q1 by (simp add: process_request.simps Let_def grows_same)
    next
      case (Inr self)
      obtain st2 r2 where a: "authorize env (fst self) st1 ?request1 = (st2, r2)"
        by (cases "authorize env (fst self) st1 ?request1")
      have q2: "quiet ?st0 st2"
        using q1 authorize_quiet [OF a] by (rule quiet_trans)
      show ?thesis
      proof (cases r2)
        case (Inl err)
        then show ?thesis
          using False e Inr a q2 by (simp add: process_request.simps Let_def grows_same)
      next
        case u: (Inr u)
        have "quiet ?st0 (process (fst self) st2)"
          using q2 process_quiet by (rule quiet_trans)
        then have "grows ?st0 ?request1
                (delegate env (fst self) (process (fst self) st2) ?request1 response)"
          using pipeline_grows(2) by (rule quiet_grows)
        then show ?thesis
          using False e Inr a u by (simp add: process_request.simps Let_def)
      qed
    qed
  qed
qed

section \<open>The execution trace\<close>

text \<open>
  C2. Whatever the layer type, the state, the request and the response, and whether
  the call returns or raises: the request that an invocation of \<open>process_request\<close>
  leaves behind has a trace, which is the trace it had before (none counts as empty),
  followed by the invoked layer type, followed by the layer types of the invocations
  nested in this one, in the order they were made. Every invocation thus adds one
  entry, its own layer type, and removes or moves none; the other keys keep their
  values.
\<close>

theorem trace_one_entry_per_invocation:
  "\<exists>nested.
     events (fst (process_request env cls st request response)) = events st @ Enter cls # nested
   \<and> middleware_stack (fst (snd (process_request env cls st request response))) =
       Some (the_trace request @ cls # entered nested)
   \<and> params (fst (snd (process_request env cls st request response))) = params request"
proof -
  let ?out = "process_request env cls st request response"
  from process_request_after_enter [of cls st request env response]
  obtain new where
    ev: "events (fst ?out) = events (record_event (Enter cls) st) @ new" and
    tr: "the_trace (fst (snd ?out)) = the_trace (appendParam request cls) @ entered new" and
    pa: "params (fst (snd ?out)) = params (appendParam request cls)" and
    ne: "middleware_stack (appendParam request cls) \<noteq> None
           \<longrightarrow> middleware_stack (fst (snd ?out)) \<noteq> None"
    unfolding grows_def by blast
  have "middleware_stack (fst (snd ?out)) \<noteq> None"
    using ne by (simp add: appendParam_def)
  then have "middleware_stack (fst (snd ?out)) = Some (the_trace (fst (snd ?out)))"
    by (auto simp: the_trace_def)
  moreover have "the_trace (appendParam request cls) = the_trace request @ [cls]"
    by (simp add: appendParam_def the_trace_def split: option.splits)
  ultimately show ?thesis
    using ev tr pa by (intro exI [of _ new]) (simp add: record_event_def appendParam_def)
qed

section \<open>Abstract layer types\<close>

lemma never_abstract: "\<not> isabstract cls"
  by (cases cls) (simp_all add: isabstract_def uses_ABCMeta_def resolve_def)

text \<open>
  C1 says that the entry point called on an abstract layer type raises
  AbstractMiddlewareError before any authorizer runs or any instance is created. The
  code does not do so. \<open>AuthMiddleWare\<close> has both of its abstract methods unresolved,
  yet \<open>inspect.isabstract\<close> is false for it: the class body binds \<open>_metaclass_\<close>, so
  the class is not built by \<open>ABCMeta\<close>. In a fresh process the entry point called on
  \<open>AuthMiddleWare\<close> raises nothing: it creates and initialises an instance of the
  class, stores it on the class, runs the bodies of the abstract \<open>process\<close> and
  \<open>delegate\<close>, and returns \<open>None\<close>.
\<close>

theorem abstract_entry_not_rejected:
  "unresolved_abstract AuthMiddleWare = [''process'', ''delegate'']
   \<and> \<not> isabstract AuthMiddleWare
   \<and> process_request env AuthMiddleWare initial_state request response =
       (initial_state
          \<lparr>own_instance := (own_instance initial_state)(AuthMiddleWare := Inst 0),
           heap := [(AuthMiddleWare, [])],
           events := [Enter AuthMiddleWare, Create AuthMiddleWare 0, Init AuthMiddleWare,
                      Process AuthMiddleWare, Delegate AuthMiddleWare]\<rparr>,
        appendParam request AuthMiddleWare,
        Inr PNone)"
  by (simp add: never_abstract unresolved_abstract_def resolve_def process_request.simps
        ensure_instance_def instance_holder_def init_instance_def authorize_def
        get_authorizers_def process_def record_event_def initial_state_def Let_def
        fun_upd_idem_iff)

text \<open>
  What the instance left by such a call does. The view layer, entered next with a
  request that its method check refuses, finds that instance through the MRO: it
  creates no instance of its own, calls no authorizer, runs the \<open>process\<close> and
  \<open>delegate\<close> of \<open>AuthMiddleWare\<close> and returns \<open>None\<close>.
\<close>

lemma abstract_instance_inherited:
  "snd (snd (process_request sample_env ViewAuthMiddleWare
       (fst (process_request sample_env AuthMiddleWare initial_state fresh_get empty_response))
       post_request empty_response)) = Inr PNone
   \<and> events (fst (process_request sample_env ViewAuthMiddleWare
       (fst (process_request sample_env AuthMiddleWare initial_state fresh_get empty_response))
       post_request empty_response)) =
       [Enter AuthMiddleWare, Create AuthMiddleWare 0, Init AuthMiddleWare,
        Process AuthMiddleWare, Delegate AuthMiddleWare,
        Enter ViewAuthMiddleWare, Process AuthMiddleWare, Delegate AuthMiddleWare]
   \<and> heap (fst (process_request sample_env ViewAuthMiddleWare
       (fst (process_request sample_env AuthMiddleWare initial_state fresh_get empty_response))
       post_request empty_response)) = [(AuthMiddleWare, [])]"
  by (simp add: never_abstract process_request.simps ensure_instance_def instance_holder_def
        init_instance_def authorize_def get_authorizers_def process_def record_event_def
        initial_state_def Let_def)

section \<open>Stacked delegation\<close>

lemma stacked_delegate_snoc:
  "stacked_delegate env (mws @ [s_mw]) st request response =
     (case stacked_delegate env mws st request response of
        (st1, request1, Inl e) \<Rightarrow> (st1, request1, Inl e)
      | (st1, request1, Inr response1) \<Rightarrow> process_request env s_mw st1 request1 response1)"
proof (induction mws arbitrary: st request response)
  case Nil
  show ?case
    by (simp split: prod.splits sum.splits)
next
  case (Cons m mws)
  show ?case
    by (simp add: Cons.IH split: prod.splits sum.splits)
qed

text \<open>
  C7. The loop of \<open>StackedAuthMiddleWare.delegate\<close> over a list of layer types: on the
  empty list it returns the response passed in; on a list that ends with \<open>s_mw\<close> it
  runs the list before \<open>s_mw\<close> first and, unless that raised, returns what the entry
  point called on \<open>s_mw\<close> returns for the request as it then stands and the response
  that the layer before \<open>s_mw\<close> returned. The default \<open>delegate\<close> is this loop over the
  class's \<open>STACKED_MIDDLEWARES\<close>.
\<close>

theorem stacked_delegate_sequence:
  "stacked_delegate env [] st request response = (st, request, Inr response)
   \<and> stacked_delegate env (mws @ [s_mw]) st request response =
       (case stacked_delegate env mws st request response of
          (st1, request1, Inl e) \<Rightarrow> (st1, request1, Inl e)
        | (st1, request1, Inr response1) \<Rightarrow> process_request env s_mw st1 request1 response1)
   \<and> delegate env StackedAuthMiddleWare st request response =
       stacked_delegate env (STACKED_MIDDLEWARES StackedAuthMiddleWare)
         (record_event (Delegate StackedAuthMiddleWare) st) request response"
  using stacked_delegate_snoc [of env mws s_mw st request response] by simp

section \<open>The order of the steps of one invocation\<close>

lemma ensure_instance_events:
  assumes "ensure_instance cls st = (st', Inr self)"
  shows "events st' = events st \<or> events st' = events st @ [Create cls (snd self), Init cls]"
  using assms
  by (auto simp: ensure_instance_def init_instance_def record_event_def Let_def
           split: option.splits slot.splits prod.splits sum.splits if_splits)

lemma authorize_loop_state:
  "\<exists>called. fst (authorize_loop env cls request es st) =
             st\<lparr>events := events st @ map Authorize called\<rparr>"
proof (induction es arbitrary: st)
  case Nil
  show ?case by (intro exI [of _ "[]"]) simp
next
  case (Cons entry es)
  show ?case
  proof (cases entry)
    case (AuthClass a)
    then show ?thesis by (intro exI [of _ "[]"]) simp
  next
    case (AuthInstance a)
    show ?thesis
    proof (cases "fst (authorizer_authorize env a request) \<in> set (SAFE_CODES env)")
      case True
      from Cons.IH [of "record_event (Authorize a) st"] obtain called where
        "fst (authorize_loop env cls request es (record_event (Authorize a) st)) =
           (record_event (Authorize a) st)
             \<lparr>events := events (record_event (Authorize a) st) @ map Authorize called\<rparr>"
        by blast
      with True AuthInstance show ?thesis
        by (intro exI [of _ "a # called"]) (simp add: Let_def record_event_def)
    next
      case False
      with AuthInstance show ?thesis
        by (intro exI [of _ "[a]"]) (simp add: Let_def record_event_def)
    qed
  qed
qed

lemma delegate_first_event:
  "\<exists>rest. events (fst (delegate env cls st request response)) = events st @ Delegate cls # rest"
proof -
  have loop: "\<exists>rest. events (fst (stacked_delegate env mws (record_event (Delegate cls) st)
                                   request response))
                     = events st @ Delegate cls # rest" for mws
    using pipeline_grows(3) [of "record_event (Delegate cls) st" request env mws response]
    by (auto simp: grows_def record_event_def)
  show ?thesis
  proof (cases cls)
    case AuthMiddleWare
    then show ?thesis by (simp add: record_event_def)
  next
    case StackedAuthMiddleWare
    then show ?thesis using loop [of "[]"] by simp
  next
    case ViewAuthMiddleWare
    then show ?thesis by (simp add: record_event_def)
  next
    case IdentityAuthMiddleWare
    then show ?thesis
      using loop [of "[ViewAuthMiddleWare]"]
      by (cases "is_requesting_authentication env request") (simp_all add: Let_def record_event_def)
  qed
qed

text \<open>
  C9. One invocation on a layer type that is not abstract, named by its steps: \<open>st1\<close>
  and \<open>self\<close> are the state and the instance after lines 49 to 53, \<open>st2\<close> and \<open>r\<close>
  the state and the outcome after \<open>authorize\<close>. The history then reads: the entry
  (with the append to the trace), then nothing or the creation and initialisation of
  the instance, then authorizer calls only. If \<open>authorize\<close> raised, the invocation
  raises the same error and nothing more happens; otherwise the history goes on with
  the \<open>process\<close> hook, then \<open>delegate\<close>, both on the instance, and the invocation
  returns what \<open>delegate\<close> returns.
\<close>

theorem process_request_order:
  assumes "\<not> isabstract cls"
      and "ensure_instance cls (record_event (Enter cls) st) = (st1, Inr self)"
      and "authorize env (fst self) st1 (appendParam request cls) = (st2, r)"
  shows "(\<exists>created. events st1 = events st @ Enter cls # created
            \<and> (created = [] \<or> created = [Create cls (snd self), Init cls]))
       \<and> (\<exists>called. events st2 = events st1 @ map Authorize called)
       \<and> (case r of
            Inl e \<Rightarrow>
              process_request env cls st request response =
                (st2, appendParam request cls, Inl e)
          | Inr u \<Rightarrow>
              process_request env cls st request response =
                delegate env (fst self) (process (fst self) st2) (appendParam request cls) response
            \<and> (\<exists>rest. events (fst (process_request env cls st request response)) =
                    events st2 @ Process (fst self) # Delegate (fst self) # rest))"
proof -
  have c1: "\<exists>created. events st1 = events st @ Enter cls # created
            \<and> (created = [] \<or> created = [Create cls (snd self), Init cls])"
    using ensure_instance_events [OF assms(2)] by (auto simp: record_event_def)
  have c2: "\<exists>called. events st2 = events st1 @ map Authorize called"
  proof -
    from authorize_loop_state [of env "fst self" "appendParam request cls"
            "get_authorizers st1 (fst self)" st1] assms(3)
    obtain called where "st2 = st1\<lparr>events := events st1 @ map Authorize called\<rparr>"
      by (auto simp: authorize_def)
    then show ?thesis
      by (intro exI [of _ called]) simp
  qed
  have c3: "process_request env cls st request response = (st2, appendParam request cls, Inl e)"
    if "r = Inl e" for e
    using assms that by (simp add: process_request.simps Let_def)
  have c4: "process_request env cls st request response =
              delegate env (fst self) (process (fst self) st2) (appendParam request cls) response"
    if "r = Inr u" for u
    using assms that by (simp add: process_request.simps Let_def)
  have c5: "\<exists>rest. events (fst (process_request env cls st request response)) =
                    events st2 @ Process (fst self) # Delegate (fst self) # rest"
    if "r = Inr u" for u
    using delegate_first_event [of env "fst self" "process (fst self) st2"
            "appendParam request cls" response]
    by (simp add: c4 [OF that] process_def record_event_def)
  show ?thesis
    using c1 c2 c3 c4 c5 by (cases r) simp_all
qed

theorem process_request_order_witness:
  "process_request sample_env ViewAuthMiddleWare initial_state fresh_get empty_response =
     (initial_state
        \<lparr>own_instance := (own_instance initial_state)(ViewAuthMiddleWare := Inst 0),
         auth_classes := (auth_classes initial_state)
            (ViewAuthMiddleWare := [AuthInstance SafeMethodOnlyAuthorizer, AuthInstance APIAuthorizer]),
         heap := [(ViewAuthMiddleWare, [])],
         events := [Enter ViewAuthMiddleWare, Create ViewAuthMiddleWare 0, Init ViewAuthMiddleWare,
                    Authorize SafeMethodOnlyAuthorizer, Authorize APIAuthorizer,
                    Process ViewAuthMiddleWare, Delegate ViewAuthMiddleWare, Route]\<rparr>,
      fresh_get\<lparr>middleware_stack := Some [ViewAuthMiddleWare]\<rparr>,
      Inr (PStr ''routed''))"
proof -
  let ?st1 = "initial_state
        \<lparr>own_instance := (own_instance initial_state)(ViewAuthMiddleWare := Inst 0),
         auth_classes := (auth_classes initial_state)
            (ViewAuthMiddleWare := [AuthInstance SafeMethodOnlyAuthorizer, AuthInstance APIAuthorizer]),
         heap := [(ViewAuthMiddleWare, [])],
         events := [Enter ViewAuthMiddleWare, Create ViewAuthMiddleWare 0,
                    Init ViewAuthMiddleWare]\<rparr>"
  let ?st2 = "?st1\<lparr>events := [Enter ViewAuthMiddleWare, Create ViewAuthMiddleWare 0,
                    Init ViewAuthMiddleWare, Authorize SafeMethodOnlyAuthorizer,
                    Authorize APIAuthorizer]\<rparr>"
  have a: "ensure_instance ViewAuthMiddleWare
             (record_event (Enter ViewAuthMiddleWare) initial_state) =
           (?st1, Inr (ViewAuthMiddleWare, 0))"
    by (simp add: ensure_instance_def instance_holder_def init_instance_def record_event_def
          initial_state_def Let_def)
  have b: "authorize sample_env (fst (ViewAuthMiddleWare, 0 :: nat)) ?st1
             (appendParam fresh_get ViewAuthMiddleWare) = (?st2, Inr ())"
    by (simp add: authorize_def get_authorizers_def record_event_def initial_state_def
          Let_def sample_env_def fresh_get_def appendParam_def)
  from process_request_order [OF never_abstract a b, of empty_response]
  show ?thesis
    by (simp add: process_def record_event_def sample_env_def fresh_get_def appendParam_def
          initial_state_def)
qed

section \<open>The identity layer\<close>

text \<open>
  C8 says that \<open>delegate\<close> of the identity layer copies the token and returns the
  response for every request for which the capability query holds. As stated it
  fails: the query may hold for a request that has no token header, or one too short
  to hold a token, and for a response that is \<open>None\<close> (the default of
  \<open>process_request\<close>); line 159 then raises.
\<close>

theorem identity_delegate_counterexample:
  "is_requesting_authentication sample_env login_no_token
   \<and> snd (snd (delegate sample_env IdentityAuthMiddleWare initial_state login_no_token
                 empty_response)) = Inl KeyError
   \<and> is_requesting_authentication sample_env login_short_header
   \<and> snd (snd (delegate sample_env IdentityAuthMiddleWare initial_state login_short_header
                 empty_response)) = Inl IndexError
   \<and> is_requesting_authentication sample_env login_with_token
   \<and> snd (snd (delegate sample_env IdentityAuthMiddleWare initial_state login_with_token
                 PNone)) = Inl TypeError"
  by (simp add: sample_env_def login_no_token_def login_short_header_def login_with_token_def
        empty_response_def copy_token_def getitem_def Let_def)

text \<open>
  C8, amended. When the capability query holds, the request's token header holds a
  value \<open>v\<close> with an element at index 1 and the response is a dictionary, \<open>delegate\<close>
  of the identity layer returns the response with that element stored under the token
  header; the history gains the \<open>delegate\<close> call alone, so no layer was entered and
  the router was not called, and the request is as it was. When the query does not
  hold, \<open>delegate\<close> is the inherited loop over the class's \<open>STACKED_MIDDLEWARES\<close>,
  which is the entry point called on the view layer.
\<close>

theorem identity_delegate_short_circuit:
  "(is_requesting_authentication env request
      \<and> getitem request (TOKEN_HEADER env) = Inr v \<and> index1 v = Inr token
      \<and> response = PDict kvs
     \<longrightarrow> delegate env IdentityAuthMiddleWare st request response =
           (record_event (Delegate IdentityAuthMiddleWare) st, request,
            Inr (PDict (AList.update (TOKEN_HEADER env) token kvs))))
   \<and> (\<not> is_requesting_authentication env request
     \<longrightarrow> delegate env IdentityAuthMiddleWare st request response =
           stacked_delegate env (STACKED_MIDDLEWARES IdentityAuthMiddleWare)
             (record_event (Delegate IdentityAuthMiddleWare) st) request response
       \<and> delegate env IdentityAuthMiddleWare st request response =
           process_request env ViewAuthMiddleWare
             (record_event (Delegate IdentityAuthMiddleWare) st) request response)"
  using stacked_delegate_snoc [of env "[]" ViewAuthMiddleWare
          "record_event (Delegate IdentityAuthMiddleWare) st" request response]
  by (simp add: Let_def copy_token_def)

theorem identity_delegate_short_circuit_witness:
  "delegate sample_env IdentityAuthMiddleWare initial_state login_with_token empty_response =
     (record_event (Delegate IdentityAuthMiddleWare) initial_state, login_with_token,
      Inr (PDict [(''Authorization'', PStr ''t0k3n'')]))
   \<and> delegate sample_env IdentityAuthMiddleWare initial_state fresh_get empty_response =
       process_request sample_env ViewAuthMiddleWare
         (record_event (Delegate IdentityAuthMiddleWare) initial_state) fresh_get empty_response"
  using identity_delegate_short_circuit
          [of sample_env login_with_token "PList [PStr ''Bearer'', PStr ''t0k3n'']"
              "PStr ''t0k3n''" empty_response "[]" initial_state]
        identity_delegate_short_circuit
          [of sample_env fresh_get PNone PNone empty_response "[]" initial_state]
  by (simp add: sample_env_def login_with_token_def fresh_get_def empty_response_def
        getitem_def)

section \<open>One instance per layer type\<close>

lemma concrete_iff: "concrete cls \<longleftrightarrow> cls = ViewAuthMiddleWare \<or> cls = IdentityAuthMiddleWare"
  by (cases cls) (simp_all add: concrete_def unresolved_abstract_def resolve_def)

subsection \<open>Who holds the instance\<close>

lemma holder_self: "own_instance st cls \<noteq> Absent \<Longrightarrow> instance_holder st cls = Some cls"
  by (cases cls) (simp_all add: instance_holder_def)

lemma holder_none_absent: "instance_holder st cls = None \<Longrightarrow> own_instance st cls = Absent"
  by (cases cls) (auto simp: instance_holder_def split: if_splits)

lemma holder_own: "instance_holder st cls = Some c \<Longrightarrow> own_instance st c \<noteq> Absent"
  by (auto simp: instance_holder_def find_Some_iff)

lemma holder_clean:
  assumes "clean st" and "concrete cls"
  shows "instance_holder st cls = (if own_instance st cls = Absent then None else Some cls)"
  using assms by (auto simp: clean_def concrete_iff instance_holder_def)

text \<open>
  A class none of whose ancestors has an entry gets one: every class keeps the holder
  it had, because a class that comes before that holder in an MRO has the holder
  among its own ancestors.
\<close>

lemma holder_after_create:
  assumes "instance_holder st cls = None" and "instance_holder st cls' = Some c"
      and "own_instance st' = (own_instance st)(cls := v)"
  shows "instance_holder st' cls' = Some c \<and> own_instance st' c = own_instance st c"
  using assms
  by (cases cls; cases cls') (auto simp: instance_holder_def split: if_splits)

lemma stable_refl: "stable st st"
  by (simp add: stable_def)

lemma stable_trans: "stable st st1 \<Longrightarrow> stable st1 st2 \<Longrightarrow> stable st st2"
  by (simp add: stable_def)


lemma stable_same_entries: "own_instance st' = own_instance st \<Longrightarrow> stable st st'"
  by (simp add: stable_def serving_def instance_holder_def cong: option.case_cong)

lemma stable_event: "stable st (record_event e st)"
  by (rule stable_same_entries) (simp add: record_event_def)

lemma clean_event: "clean (record_event e st) = clean st"
  by (simp add: clean_def record_event_def)

lemma serving_fetch: "serving st cls = Some x \<Longrightarrow> ensure_instance cls st = (st, Inr x)"
  by (auto simp: serving_def ensure_instance_def split: option.splits slot.splits)

subsection \<open>The invariant\<close>

lemma tidy_initial: "tidy initial_state"
  by (simp add: tidy_def counted_def listed_def initial_state_def instances_of_def inits_of_def)

lemma clean_initial: "clean initial_state"
  by (simp add: clean_def initial_state_def)

lemma counted_events:
  "counted c st \<Longrightarrow> Init c \<notin> set new \<Longrightarrow> counted c (st\<lparr>events := events st @ new\<rparr>)"
  by (auto simp: counted_def instances_of_def inits_of_def filter_empty_conv
           split: slot.splits)

lemma tidy_events:
  "tidy st \<Longrightarrow> \<forall>c. Init c \<notin> set new \<Longrightarrow> tidy (st\<lparr>events := events st @ new\<rparr>)"
  by (simp add: tidy_def counted_events listed_def)

lemma tidy_event: "tidy st \<Longrightarrow> \<forall>c. e \<noteq> Init c \<Longrightarrow> tidy (record_event e st)"
  using tidy_events [of st "[e]"] by (auto simp: record_event_def)

lemma init_entries_classes:
  "init_entries (map AuthClass as) = (map AuthInstance as, None)"
  by (induction as) simp_all

lemma list_before_init:
  assumes "tidy st" and "own_instance st cls = Absent"
  shows "auth_classes st (AUTH_CLASSES_owner cls) = map AuthClass (AUTH_CLASSES cls)"
  using assms by (cases cls) (auto simp: tidy_def listed_def)

lemma list_of_served:
  assumes "tidy st" and "own_instance st cls \<noteq> Absent"
  shows "auth_classes st (AUTH_CLASSES_owner cls) = map AuthInstance (AUTH_CLASSES cls)"
  using assms by (cases cls) (auto simp: tidy_def listed_def)

lemma ensure_instance_create:
  assumes "tidy st" and "instance_holder st cls = None"
  shows "ensure_instance cls st = (with_new_instance cls st, Inr (cls, length (heap st)))"
proof -
  have absent: "own_instance st cls = Absent"
    using assms(2) by (rule holder_none_absent)
  have holder: "instance_holder (st\<lparr>own_instance := (own_instance st)(cls := IsNone)\<rparr>) cls
                  = Some cls"
    by (rule holder_self) simp
  show ?thesis
    by (simp add: ensure_instance_def assms(2) holder init_instance_def record_event_def
          list_before_init [OF assms(1) absent] init_entries_classes with_new_instance_def
          Let_def)
qed

lemma counted_created:
  assumes "counted c st" and "own_instance st cls = Absent"
  shows "counted c (with_new_instance cls st)"
proof (cases "c = cls")
  case True
  with assms show ?thesis
    by (simp add: counted_def with_new_instance_def instances_of_def inits_of_def)
next
  case False
  with assms(1) show ?thesis
    by (auto simp: counted_def with_new_instance_def instances_of_def inits_of_def nth_append
             split: slot.splits)
qed

lemma tidy_created:
  assumes "tidy st" and "own_instance st cls = Absent"
  shows "tidy (with_new_instance cls st)"
proof -
  have "\<forall>c. counted c (with_new_instance cls st)"
    using assms by (simp add: tidy_def counted_created)
  moreover have "listed ViewAuthMiddleWare (with_new_instance cls st)"
    using assms by (cases cls) (simp_all add: tidy_def listed_def with_new_instance_def)
  moreover have "listed IdentityAuthMiddleWare (with_new_instance cls st)"
    using assms by (cases cls) (simp_all add: tidy_def listed_def with_new_instance_def)
  moreover have "auth_classes (with_new_instance cls st) AuthMiddleWare = []"
    using assms by (cases cls) (simp_all add: tidy_def with_new_instance_def)
  ultimately show ?thesis
    by (simp add: tidy_def)
qed

lemma stable_created:
  assumes "instance_holder st cls = None"
  shows "stable st (with_new_instance cls st)"
  unfolding stable_def
proof (intro allI impI)
  fix cls' x
  assume s: "serving st cls' = Some x"
  then obtain c i where h: "instance_holder st cls' = Some c" and
    o: "own_instance st c = Inst i" and x: "x = (c, i)"
    by (auto simp: serving_def split: option.splits slot.splits)
  have "own_instance (with_new_instance cls st) =
          (own_instance st)(cls := Inst (length (heap st)))"
    by (simp add: with_new_instance_def)
  from holder_after_create [OF assms h this]
  show "serving (with_new_instance cls st) cls' = Some x"
    using o x by (simp add: serving_def)
qed

lemma serving_created:
  "serving (with_new_instance cls st) cls = Some (cls, length (heap st))"
proof -
  have "instance_holder (with_new_instance cls st) cls = Some cls"
    by (rule holder_self) (simp add: with_new_instance_def)
  then show ?thesis
    by (simp add: serving_def with_new_instance_def)
qed

lemma serving_of_holder:
  assumes "tidy st" and "instance_holder st cls = Some c"
  shows "\<exists>i. serving st cls = Some (c, i)"
proof -
  have "own_instance st c \<noteq> Absent"
    using assms(2) by (rule holder_own)
  moreover have "counted c st"
    using assms(1) by (simp add: tidy_def)
  ultimately show ?thesis
    using assms(2) by (cases "own_instance st c") (simp_all add: counted_def serving_def)
qed

lemma ensure_instance_tidy:
  assumes "tidy st" and "ensure_instance cls st = (st', r)"
  shows "tidy st' \<and> stable st st' \<and> (\<exists>x. r = Inr x \<and> serving st' cls = Some x)"
proof (cases "instance_holder st cls")
  case None
  have "st' = with_new_instance cls st" and "r = Inr (cls, length (heap st))"
    using ensure_instance_create [OF assms(1) None] assms(2) by simp_all
  then show ?thesis
    using tidy_created [OF assms(1) holder_none_absent [OF None]] stable_created [OF None]
    by (simp add: serving_created)
next
  case (Some c)
  from serving_of_holder [OF assms(1) Some] obtain i where s: "serving st cls = Some (c, i)"
    by blast
  from serving_fetch [OF s] assms show ?thesis
    using s by (simp add: stable_refl)
qed

lemma ensure_instance_clean:
  assumes "tidy st" and "clean st" and "concrete cls" and "ensure_instance cls st = (st', r)"
  shows "clean st' \<and> (\<exists>i. r = Inr (cls, i))"
proof (cases "own_instance st cls = Absent")
  case True
  then have none: "instance_holder st cls = None"
    by (simp add: holder_clean [OF assms(2,3)])
  have "st' = with_new_instance cls st" and "r = Inr (cls, length (heap st))"
    using ensure_instance_create [OF assms(1) none] assms(4) by simp_all
  then show ?thesis
    using assms(2,3) by (auto simp: clean_def concrete_iff with_new_instance_def)
next
  case False
  then have "instance_holder st cls = Some cls"
    by (rule holder_self)
  from serving_of_holder [OF assms(1) this] obtain i where "serving st cls = Some (cls, i)"
    by blast
  from serving_fetch [OF this] assms show ?thesis
    by simp
qed

lemma authorize_loop_state_tidy:
  assumes "tidy st" and "authorize env cls st request = (st', r)"
  shows "tidy st' \<and> stable st st' \<and> clean st' = clean st"
proof -
  from authorize_loop_state [of env cls request "get_authorizers st cls" st] assms(2)
  obtain called where st': "st' = st\<lparr>events := events st @ map Authorize called\<rparr>"
    by (auto simp: authorize_def)
  have "tidy st'"
    unfolding st' using assms(1) by (rule tidy_events) auto
  moreover have "stable st st'"
    by (rule stable_same_entries) (simp add: st')
  moreover have "clean st' = clean st"
    by (simp add: st' clean_def)
  ultimately show ?thesis by simp
qed

text \<open>
  Where \<open>process_request\<close> calls \<open>authorize\<close>: lines 49 to 53 have returned an
  instance, the authorizer list of its class holds instances, and the request carries
  the trace with the class appended.
\<close>

lemma authorize_called_prepared:
  assumes "tidy st" and "ensure_instance cls (record_event (Enter cls) st) = (st1, r)"
  shows "\<exists>x. r = Inr x
            \<and> get_authorizers st1 (fst x) = map AuthInstance (AUTH_CLASSES (fst x))
            \<and> middleware_stack (appendParam request cls) = Some (the_trace request @ [cls])"
proof -
  have "tidy (record_event (Enter cls) st)"
    using assms(1) by (rule tidy_event) simp
  from ensure_instance_tidy [OF this assms(2)] obtain x where
    t1: "tidy st1" and r: "r = Inr x" and s: "serving st1 cls = Some x"
    by blast
  have "own_instance st1 (fst x) \<noteq> Absent"
    using s by (auto simp: serving_def split: option.splits slot.splits)
  from list_of_served [OF t1 this]
  have "get_authorizers st1 (fst x) = map AuthInstance (AUTH_CLASSES (fst x))"
    by (simp add: get_authorizers_def)
  moreover have "middleware_stack (appendParam request cls) = Some (the_trace request @ [cls])"
    by (simp add: appendParam_def the_trace_def split: option.splits)
  ultimately show ?thesis
    using r by simp
qed

subsection \<open>The invariant along the pipeline\<close>

lemma pipeline_tidy:
  "tidy st \<longrightarrow>
     tidy (fst (process_request env cls st request response))
     \<and> stable st (fst (process_request env cls st request response))
     \<and> stable (fst (ensure_instance cls (record_event (Enter cls) st)))
              (fst (process_request env cls st request response))
     \<and> (clean st \<and> concrete cls \<longrightarrow> clean (fst (process_request env cls st request response)))"
  "tidy st \<longrightarrow>
     tidy (fst (delegate env cls st request response))
     \<and> stable st (fst (delegate env cls st request response))
     \<and> (clean st \<and> concrete cls \<longrightarrow> clean (fst (delegate env cls st request response)))"
  "tidy st \<longrightarrow>
     tidy (fst (stacked_delegate env mws st request response))
     \<and> stable st (fst (stacked_delegate env mws st request response))
     \<and> (clean st \<and> list_all concrete mws
          \<longrightarrow> clean (fst (stacked_delegate env mws st request response)))"
proof (induction env cls st request response and env cls st request response
         and env mws st request response rule: process_request_delegate_stacked_delegate.induct)
  case (1 env cls st request response)
  let ?request1 = "appendParam request cls"
  let ?st0 = "record_event (Enter cls) st"
  let ?out = "process_request env cls st request response"
  show ?case
  proof (intro impI)
    assume t: "tidy st"
    have abs: "\<not> isabstract cls" by (rule never_abstract)
    have t0: "tidy ?st0" using t by (rule tidy_event) simp
    have s0: "stable st ?st0" by (rule stable_event)
    obtain st1 r1 where e: "ensure_instance cls ?st0 = (st1, r1)"
      by (cases "ensure_instance cls ?st0")
    from ensure_instance_tidy [OF t0 e] obtain x where
      t1: "tidy st1" and s1: "stable ?st0 st1" and r1: "r1 = Inr x"
      by blast
    have c1: "clean st1 \<and> fst x = cls" if "clean st" "concrete cls"
      using ensure_instance_clean [OF t0 _ that(2) e] that(1) r1 by (auto simp: clean_event)
    obtain st2 r2 where a: "authorize env (fst x) st1 ?request1 = (st2, r2)"
      by (cases "authorize env (fst x) st1 ?request1")
    from authorize_loop_state_tidy [OF t1 a]
    have t2: "tidy st2" and s2: "stable st1 st2" and c2: "clean st2 = clean st1"
      by simp_all
    have s02: "stable st st2"
      using s0 s1 s2 by (blast intro: stable_trans)
    show "tidy (fst ?out) \<and> stable st (fst ?out)
          \<and> stable (fst (ensure_instance cls ?st0)) (fst ?out)
          \<and> (clean st \<and> concrete cls \<longrightarrow> clean (fst ?out))"
    proof (cases r2)
      case (Inl err)
      then have "?out = (st2, ?request1, Inl err)"
        using abs e r1 a by (simp add: process_request.simps Let_def)
      then show ?thesis
        using t2 s02 s2 c1 c2 e by simp
    next
      case u: (Inr u)
      let ?st3 = "process (fst x) st2"
      have t3: "tidy ?st3"
        unfolding process_def using t2 by (rule tidy_event) simp
      have s3: "stable st2 ?st3"
        unfolding process_def by (rule stable_event)
      have c3: "clean ?st3 = clean st2"
        unfolding process_def by (rule clean_event)
      have eq: "?out = delegate env (fst x) ?st3 ?request1 response"
        using abs e r1 a u by (simp add: process_request.simps Let_def)
      have ih: "tidy (fst (delegate env (fst x) ?st3 ?request1 response))
                \<and> stable ?st3 (fst (delegate env (fst x) ?st3 ?request1 response))
                \<and> (clean ?st3 \<and> concrete (fst x)
                     \<longrightarrow> clean (fst (delegate env (fst x) ?st3 ?request1 response)))"
        using "1.IH" [OF refl refl abs e [symmetric] r1 a [symmetric] u] t3 by simp
      have "stable st (fst ?out)"
        unfolding eq using s02 s3 ih by (blast intro: stable_trans)
      moreover have "stable (fst (ensure_instance cls ?st0)) (fst ?out)"
        unfolding eq using e s2 s3 ih by (auto intro: stable_trans)
      moreover have "clean (fst ?out)" if "clean st" "concrete cls"
        unfolding eq using c1 [OF that] c2 c3 ih that(2) by simp
      ultimately show ?thesis
        using ih by (simp add: eq)
    qed
  qed
next
  case (2 env st request response)
  show ?case
    by (auto intro!: tidy_event stable_event simp: clean_event)
next
  case (3 env st request response)
  have "tidy (record_event (Delegate StackedAuthMiddleWare) st)" if "tidy st"
    using that by (rule tidy_event) simp
  then show ?case
    using stable_event [of st "Delegate StackedAuthMiddleWare"]
    by (auto simp: concrete_iff)
next
  case (4 env st request response)
  show ?case
    by (auto intro!: tidy_event stable_trans [OF stable_event stable_event] simp: clean_event)
next
  case (5 env st request response)
  let ?st1 = "record_event (Delegate IdentityAuthMiddleWare) st"
  show ?case
  proof (intro impI)
    assume t: "tidy st"
    have t1: "tidy ?st1" using t by (rule tidy_event) simp
    have s1: "stable st ?st1" by (rule stable_event)
    let ?out = "delegate env IdentityAuthMiddleWare st request response"
    show "tidy (fst ?out) \<and> stable st (fst ?out)
          \<and> (clean st \<and> concrete IdentityAuthMiddleWare \<longrightarrow> clean (fst ?out))"
    proof (cases "is_requesting_authentication env request")
      case True
      then show ?thesis using t1 s1 by (simp add: Let_def clean_event)
    next
      case False
      let ?loop = "stacked_delegate env (STACKED_MIDDLEWARES IdentityAuthMiddleWare)
                     ?st1 request response"
      have ih: "tidy (fst ?loop) \<and> stable ?st1 (fst ?loop)
                \<and> (clean ?st1 \<and> list_all concrete (STACKED_MIDDLEWARES IdentityAuthMiddleWare)
                     \<longrightarrow> clean (fst ?loop))"
        using "5.IH" [OF refl False] t1 by simp
      have "?out = ?loop"
        using False by (simp add: Let_def)
      then show ?thesis
        using ih s1 by (auto simp: clean_event concrete_iff intro: stable_trans)
    qed
  qed
next
  case (6 env st request response)
  show ?case by (simp add: stable_refl)
next
  case (7 env s_mw rest st request response)
  let ?out = "stacked_delegate env (s_mw # rest) st request response"
  show ?case
  proof (intro impI)
    assume t: "tidy st"
    obtain st1 request1 r1 where
      p: "process_request env s_mw st request response = (st1, request1, r1)"
      by (cases "process_request env s_mw st request response")
    have ih1: "tidy st1 \<and> stable st st1 \<and> (clean st \<and> concrete s_mw \<longrightarrow> clean st1)"
      using "7.IH"(1) t p by simp
    show "tidy (fst ?out) \<and> stable st (fst ?out)
          \<and> (clean st \<and> list_all concrete (s_mw # rest) \<longrightarrow> clean (fst ?out))"
    proof (cases r1)
      case (Inl err)
      then show ?thesis using p ih1 by simp
    next
      case (Inr response1)
      let ?loop = "stacked_delegate env rest st1 request1 response1"
      have ih2: "tidy (fst ?loop) \<and> stable st1 (fst ?loop)
                 \<and> (clean st1 \<and> list_all concrete rest \<longrightarrow> clean (fst ?loop))"
        using "7.IH"(2) [OF p [symmetric] refl Inr] ih1 by simp
      have "?out = ?loop"
        using p Inr by simp
      then show ?thesis
        using ih1 ih2 by (auto intro: stable_trans)
    qed
  qed
qed


lemma concrete_history_clean:
  assumes "concrete_history env st st'" and "tidy st" and "clean st"
  shows "history env st st' \<and> tidy st' \<and> clean st'"
  using assms
proof (induction rule: concrete_history.induct)
  case here
  then show ?case by (simp add: history.here)
next
  case (call st1 cls request response)
  then show ?case
    using pipeline_tidy(1) [of st1 env cls request response]
    by (auto intro: history.call)
qed

text \<open>A process that has called the entry point on concrete layer types only.\<close>

lemma concrete_process_clean:
  "concrete_history env initial_state st \<Longrightarrow> history env initial_state st \<and> clean st"
  using concrete_history_clean [OF _ tidy_initial clean_initial] by blast


subsection \<open>The singleton\<close>





section \<open>Instance attributes\<close>








section \<open>The scenarios of the specification, run\<close>

lemmas run_defs =
  never_abstract process_request.simps ensure_instance_def instance_holder_def
  init_instance_def authorize_def get_authorizers_def process_def record_event_def
  initial_state_def copy_token_def getitem_def appendParam_def Let_def

text \<open>
  Scenario A: a request that asks for authentication and carries a token, entered at
  the identity layer in a fresh process. The identity layer alone is entered, its
  authorizer is called, and the response holds the token; the router is not called.
\<close>

lemma scenario_short_circuit:
  "process_request sample_env IdentityAuthMiddleWare initial_state login_with_token
     empty_response =
   (initial_state
      \<lparr>own_instance := (own_instance initial_state)(IdentityAuthMiddleWare := Inst 0),
       auth_classes := (auth_classes initial_state)
          (IdentityAuthMiddleWare := [AuthInstance Authenticator]),
       heap := [(IdentityAuthMiddleWare, [])],
       events := [Enter IdentityAuthMiddleWare, Create IdentityAuthMiddleWare 0,
                  Init IdentityAuthMiddleWare, Authorize Authenticator,
                  Process IdentityAuthMiddleWare, Delegate IdentityAuthMiddleWare]\<rparr>,
    login_with_token\<lparr>middleware_stack := Some [IdentityAuthMiddleWare]\<rparr>,
    Inr (PDict [(''Authorization'', PStr ''t0k3n'')]))"
  by (simp add: run_defs sample_env_def login_with_token_def empty_response_def)

text \<open>
  Scenario B: a request that does not ask for authentication goes from the identity
  layer to the view layer and the router; the trace names both layers in order.
\<close>

lemma scenario_fall_through:
  "snd (process_request sample_env IdentityAuthMiddleWare initial_state fresh_get
          empty_response) =
     (fresh_get\<lparr>middleware_stack := Some [IdentityAuthMiddleWare, ViewAuthMiddleWare]\<rparr>,
      Inr (PStr ''routed''))
   \<and> events (fst (process_request sample_env IdentityAuthMiddleWare initial_state fresh_get
          empty_response)) =
     [Enter IdentityAuthMiddleWare, Create IdentityAuthMiddleWare 0,
      Init IdentityAuthMiddleWare, Authorize Authenticator,
      Process IdentityAuthMiddleWare, Delegate IdentityAuthMiddleWare,
      Enter ViewAuthMiddleWare, Create ViewAuthMiddleWare 1, Init ViewAuthMiddleWare,
      Authorize SafeMethodOnlyAuthorizer, Authorize APIAuthorizer,
      Process ViewAuthMiddleWare, Delegate ViewAuthMiddleWare, Route]"
  by (simp add: run_defs sample_env_def fresh_get_def empty_response_def)

text \<open>
  Scenario C: a request whose method the view layer's first authorizer refuses. The
  second authorizer is not called, and the error names the view layer, the trace up
  to it and the refusing result.
\<close>

lemma scenario_refused:
  "snd (snd (process_request sample_env ViewAuthMiddleWare initial_state
               (fresh_get\<lparr>params := [(''method'', PStr ''POST'')]\<rparr>) empty_response)) =
     Inl (AuthError
       [(''middleware_stack'', BStack [ViewAuthMiddleWare]),
        (''layer'', BLayer ViewAuthMiddleWare),
        (''authorizer_error'', BAuthorized (405, PStr ''method'')),
        (''request_dump'',
           BRequest \<lparr>middleware_stack = Some [ViewAuthMiddleWare],
                     params = [(''method'', PStr ''POST'')]\<rparr>)])
   \<and> events (fst (process_request sample_env ViewAuthMiddleWare initial_state
               (fresh_get\<lparr>params := [(''method'', PStr ''POST'')]\<rparr>) empty_response)) =
     [Enter ViewAuthMiddleWare, Create ViewAuthMiddleWare 0, Init ViewAuthMiddleWare,
      Authorize SafeMethodOnlyAuthorizer]"
  by (simp add: run_defs sample_env_def fresh_get_def empty_response_def auth_error_def
        get_stack_def bundle_four)


end
